theory Spec2Isabelle
  imports Main
begin

section \<open>The material-file reader (MatFileReader.h)\<close>

subsection \<open>Data model\<close>

text \<open>
  \<^verbatim>\<open>class SubsystemMaterial { std::string subsystemId; std::string type;
  std::vector<double> properties; }\<close>.  The constructor fills the first two fields and
  leaves \<open>properties\<close> empty.  The field \<open>type\<close> is called \<open>mtype\<close> here.

  A \<^verbatim>\<open>double\<close> is a value of the type variable \<open>'d\<close>: the reader never computes with
  the numbers, it only stores what the conversion of an accepted numeric field returns.
  That conversion is the parameter \<open>strtod\<close> of the functions below; it answers \<open>None\<close>
  where the C library reports a range error, which makes the extraction fail.
\<close>

record 'd SubsystemMaterial =
  subsystemId :: string
  mtype :: string
  properties :: "'d list"

definition mk_SubsystemMaterial :: "string \<Rightarrow> string \<Rightarrow> 'd SubsystemMaterial" where
  "mk_SubsystemMaterial ident tp = \<lparr>subsystemId = ident, mtype = tp, properties = []\<rparr>"

text \<open>\<^verbatim>\<open>std::map<std::string, SubsystemMaterial> materials\<close>, the only member of the reader.\<close>

type_synonym 'd materials = "string \<rightharpoonup> 'd SubsystemMaterial"

text \<open>
  \<^verbatim>\<open>std::map::insert\<close>: the pair is stored only when the key is not yet present; an
  existing entry is left as it is.
\<close>

definition map_insert :: "string \<Rightarrow> 'd SubsystemMaterial \<Rightarrow> 'd materials \<Rightarrow> 'd materials" where
  "map_insert k v m = (case m k of None \<Rightarrow> m(k \<mapsto> v) | Some old \<Rightarrow> m)"

subsection \<open>Characters and stream extraction\<close>

text \<open>\<^verbatim>\<open>isspace\<close> in the "C" locale: space, and the control characters 9 to 13.\<close>

definition isspace :: "char \<Rightarrow> bool" where
  "isspace c = (c = CHR '' '' \<or> c = CHR 0x09 \<or> c = CHR 0x0A \<or> c = CHR 0x0B
     \<or> c = CHR 0x0C \<or> c = CHR 0x0D)"

definition isdigit :: "char \<Rightarrow> bool" where
  "isdigit c = (c \<in> set ''0123456789'')"

definition is_sign :: "char \<Rightarrow> bool" where
  "is_sign c = (c = CHR ''+'' \<or> c = CHR ''-'')"

definition is_exp :: "char \<Rightarrow> bool" where
  "is_exp c = (c = CHR ''e'' \<or> c = CHR ''E'')"

text \<open>
  \<^verbatim>\<open>line[0]\<close>: for an empty \<^verbatim>\<open>std::string\<close> the subscript at \<open>size()\<close> is the
  null character (C++11), not an error.
\<close>

definition first_char :: "string \<Rightarrow> char" where
  "first_char line = (case line of [] \<Rightarrow> CHR 0x00 | c # cs \<Rightarrow> c)"

text \<open>
  The \<^verbatim>\<open>std::istringstream\<close> over a line is the text not yet read.

  \<^verbatim>\<open>iss >> str\<close> for a \<^verbatim>\<open>std::string\<close>: leading white space is skipped; if nothing
  is left the extraction fails and the target string is NOT changed (it is erased only
  after the sentry has succeeded); otherwise the characters up to the next white space
  are stored.  \<open>None\<close> is the failed extraction.
\<close>

definition get_token :: "string \<Rightarrow> (string \<times> string) option" where
  "get_token iss =
     (let r = dropWhile isspace iss
      in if r = [] then None
         else Some (takeWhile (\<lambda>c. \<not> isspace c) r, dropWhile (\<lambda>c. \<not> isspace c) r))"

text \<open>
  \<^verbatim>\<open>iss >> prop\<close> for a \<^verbatim>\<open>double\<close>.  After the white space, \<^verbatim>\<open>num_get\<close> accumulates
  the longest run of characters that can continue a decimal floating-point field: an
  optional sign, then digits with at most one decimal point, then - once a mantissa digit
  has been seen - one exponent letter with an optional sign directly after it, and
  exponent digits.  The flags of \<open>scan_body\<close> are: a mantissa digit was seen, the decimal
  point was seen, the exponent letter was seen.  The result is the accumulated field and
  the text left in the stream.  This is the decimal field of the "C" locale, without
  digit grouping; hexadecimal fields and the words \<^verbatim>\<open>inf\<close> and \<^verbatim>\<open>nan\<close> are not
  accumulated.
\<close>

fun scan_body :: "bool \<Rightarrow> bool \<Rightarrow> bool \<Rightarrow> string \<Rightarrow> string \<times> string" where
  "scan_body fm fd fs [] = ([], [])"
| "scan_body fm fd fs (c # cs) =
     (if isdigit c then
        (let (f, r) = scan_body True fd fs cs in (c # f, r))
      else if c = CHR ''.'' \<and> \<not> fd \<and> \<not> fs then
        (let (f, r) = scan_body fm True fs cs in (c # f, r))
      else if is_exp c \<and> \<not> fs \<and> fm then
        (case cs of
           [] \<Rightarrow> ([c], [])
         | s # cs' \<Rightarrow>
             if is_sign s then (let (f, r) = scan_body fm fd True cs' in (c # s # f, r))
             else (let (f, r) = scan_body fm fd True cs in (c # f, r)))
      else ([], c # cs))"

definition scan_float :: "string \<Rightarrow> string \<times> string" where
  "scan_float s =
     (case s of
        [] \<Rightarrow> ([], [])
      | c # cs \<Rightarrow>
          if is_sign c then (let (f, r) = scan_body False False False cs in (c # f, r))
          else scan_body False False False s)"

text \<open>
  The accumulated field is then converted; the extraction succeeds only if the whole
  field is a floating-point literal: sign, digits with an optional point and at least
  one digit, and, if an exponent letter is there, at least one exponent digit.
\<close>

definition exponent_syntax :: "string \<Rightarrow> bool" where
  "exponent_syntax s =
     (case s of
        [] \<Rightarrow> False
      | c # cs \<Rightarrow> is_exp c \<and>
          (let ds = (case cs of [] \<Rightarrow> [] | s # cs' \<Rightarrow> if is_sign s then cs' else cs)
           in ds \<noteq> [] \<and> list_all isdigit ds))"

definition float_syntax :: "string \<Rightarrow> bool" where
  "float_syntax s =
     (let s1 = (case s of [] \<Rightarrow> [] | c # cs \<Rightarrow> if is_sign c then cs else s);
          ip = takeWhile isdigit s1;
          s2 = dropWhile isdigit s1;
          fp = (case s2 of [] \<Rightarrow> [] | c # cs \<Rightarrow> if c = CHR ''.'' then takeWhile isdigit cs else []);
          s3 = (case s2 of [] \<Rightarrow> [] | c # cs \<Rightarrow> if c = CHR ''.'' then dropWhile isdigit cs else s2)
      in (ip \<noteq> [] \<or> fp \<noteq> []) \<and> (s3 = [] \<or> exponent_syntax s3))"

definition get_double :: "(string \<Rightarrow> 'd option) \<Rightarrow> string \<Rightarrow> ('d \<times> string) option" where
  "get_double strtod iss =
     (let r = dropWhile isspace iss
      in if r = [] then None
         else (let (field, rest) = scan_float r
               in if float_syntax field
                  then (case strtod field of None \<Rightarrow> None | Some v \<Rightarrow> Some (v, rest))
                  else None))"

text \<open>Every extraction consumes text: the accumulated field and the rest make up the input.\<close>

declare scan_body.simps [simp del]

lemma scan_body_Nil: "scan_body fm fd fs [] = ([], [])"
  by (simp add: scan_body.simps)

lemma scan_body_append: "scan_body fm fd fs s = (f, r) \<Longrightarrow> f @ r = s"
proof (induction fm fd fs s arbitrary: f r rule: scan_body.induct)
  case (1 fm fd fs)
  then show ?case by (simp add: scan_body_Nil)
next
  case (2 fm fd fs c cs)
  note unfold = scan_body.simps(2) [of fm fd fs c cs]
  show ?case
  proof (cases "isdigit c")
    case True
    obtain f' r' where sub: "scan_body True fd fs cs = (f', r')"
      by (cases "scan_body True fd fs cs")
    with True "2.prems" unfold have "f = c # f'" "r = r'" by simp_all
    with "2.IH"(1) [OF True sub] show ?thesis by simp
  next
    case nd: False
    show ?thesis
    proof (cases "c = CHR ''.'' \<and> \<not> fd \<and> \<not> fs")
      case True
      obtain f' r' where sub: "scan_body fm True fs cs = (f', r')"
        by (cases "scan_body fm True fs cs")
      with True nd "2.prems" unfold have "f = c # f'" "r = r'" by simp_all
      with "2.IH"(2) [OF nd True sub] show ?thesis by simp
    next
      case np: False
      show ?thesis
      proof (cases "is_exp c \<and> \<not> fs \<and> fm")
        case ex: True
        show ?thesis
        proof (cases cs)
          case Nil
          with ex nd np "2.prems" unfold show ?thesis by auto
        next
          case (Cons s cs')
          show ?thesis
          proof (cases "is_sign s")
            case True
            obtain f' r' where sub: "scan_body fm fd True cs' = (f', r')"
              by (cases "scan_body fm fd True cs'")
            with True ex nd np Cons "2.prems" unfold have "f = c # s # f'" "r = r'"
              by auto
            with "2.IH"(3) [OF nd np ex Cons True sub] Cons show ?thesis by simp
          next
            case False
            obtain f' r' where sub: "scan_body fm fd True cs = (f', r')"
              by (cases "scan_body fm fd True cs")
            with False ex nd np Cons "2.prems" unfold have "f = c # f'" "r = r'"
              by auto
            with "2.IH"(4) [OF nd np ex Cons False sub] show ?thesis by simp
          qed
        qed
      next
        case False
        with nd np "2.prems" unfold show ?thesis by auto
      qed
    qed
  qed
qed

lemma scan_float_append: "scan_float s = (f, r) \<Longrightarrow> f @ r = s"
  by (auto simp: scan_float_def split: list.splits if_splits prod.splits
        dest: scan_body_append)

lemma float_syntax_Nil: "\<not> float_syntax []"
  by (simp add: float_syntax_def)

lemma get_double_shorter:
  assumes "get_double strtod iss = Some (v, rest)"
  shows "length rest < length iss"
proof -
  define r where "r = dropWhile isspace iss"
  obtain field rest' where sc: "scan_float r = (field, rest')"
    by (cases "scan_float r")
  from assms sc have ok: "float_syntax field" and rest: "rest' = rest"
    by (auto simp: get_double_def r_def Let_def split: if_splits option.splits)
  from ok have "field \<noteq> []"
    using float_syntax_Nil by auto
  moreover from sc have "field @ rest' = r"
    by (rule scan_float_append)
  ultimately have "length rest < length r"
    using rest by auto
  moreover have "length r \<le> length iss"
    unfolding r_def by (rule length_dropWhile_le)
  ultimately show ?thesis by simp
qed

subsection \<open>readMatFile\<close>

text \<open>
  \<^verbatim>\<open>iss >> currentSubsystemId >> currentType\<close>: two string extractions in a row.  A
  failed extraction leaves its target as it was, so on a line with one token
  \<^verbatim>\<open>currentType\<close> keeps the value it had before the line, and on a line of white space
  both variables keep their values.
\<close>

definition read_header :: "string \<Rightarrow> string \<times> string \<Rightarrow> string \<times> string" where
  "read_header iss cur =
     (case get_token iss of
        None \<Rightarrow> cur
      | Some (ident, iss') \<Rightarrow>
          (case get_token iss' of
             None \<Rightarrow> (ident, snd cur)
           | Some (tp, iss'') \<Rightarrow> (ident, tp)))"

text \<open>
  \<^verbatim>\<open>while (iss >> prop) { auto it = materials.find(currentSubsystemId);
  if (it != materials.end()) it->second.properties.push_back(prop); }\<close>
\<close>

function read_properties ::
  "(string \<Rightarrow> 'd option) \<Rightarrow> string \<Rightarrow> string \<Rightarrow> 'd materials \<Rightarrow> 'd materials" where
  "read_properties strtod cid iss m =
     (case get_double strtod iss of
        None \<Rightarrow> m
      | Some (prop, iss') \<Rightarrow>
          read_properties strtod cid iss'
            (case m cid of
               None \<Rightarrow> m
             | Some mat \<Rightarrow> m(cid \<mapsto> mat\<lparr>properties := properties mat @ [prop]\<rparr>)))"
  by pat_completeness auto
termination
  by (relation "measure (\<lambda>(strtod, cid, iss, m). length iss)")
     (auto dest: get_double_shorter)

declare read_properties.simps [simp del]

text \<open>
  The variables of one call of \<^verbatim>\<open>readMatFile\<close>: the reader's map, and the locals
  \<^verbatim>\<open>currentSubsystemId\<close>, \<^verbatim>\<open>currentType\<close> and \<^verbatim>\<open>lineCount\<close> declared before the loop.
\<close>

record 'd parse_state =
  materials :: "'d materials"
  currentSubsystemId :: string
  currentType :: string
  lineCount :: int

text \<open>
  The body of \<^verbatim>\<open>while (getline(file, line))\<close>, with the source's tests in the
  source's order.  A line that passes the three \<^verbatim>\<open>continue\<close> tests and is empty, or
  meets a \<^verbatim>\<open>lineCount\<close> that is neither 1 nor 2, falls through both \<^verbatim>\<open>if\<close>s.
\<close>

definition loop_body :: "(string \<Rightarrow> 'd option) \<Rightarrow> 'd parse_state \<Rightarrow> string \<Rightarrow> 'd parse_state" where
  "loop_body strtod st line =
     (if first_char line = CHR ''!'' then st
      else if first_char line = CHR ''('' then st
      else if first_char line = CHR '')'' then st
      else if line \<noteq> [] \<and> first_char line \<noteq> CHR ''('' \<and> first_char line \<noteq> CHR ''!''
              \<and> lineCount st = 1 then
        (let (cid, ctp) = read_header line (currentSubsystemId st, currentType st)
         in st\<lparr>materials := map_insert cid (mk_SubsystemMaterial cid ctp) (materials st),
                currentSubsystemId := cid, currentType := ctp, lineCount := 2\<rparr>)
      else if line \<noteq> [] \<and> first_char line \<noteq> CHR ''('' \<and> first_char line \<noteq> CHR ''!''
              \<and> lineCount st = 2 then
        st\<lparr>materials := read_properties strtod (currentSubsystemId st) line (materials st),
           lineCount := 1\<rparr>
      else st)"

text \<open>The state at loop entry: both strings empty, \<^verbatim>\<open>lineCount = 1\<close>.\<close>

definition loop_init :: "'d materials \<Rightarrow> 'd parse_state" where
  "loop_init m = \<lparr>materials = m, currentSubsystemId = [], currentType = [], lineCount = 1\<rparr>"

definition read_lines :: "(string \<Rightarrow> 'd option) \<Rightarrow> 'd parse_state \<Rightarrow> string list \<Rightarrow> 'd parse_state" where
  "read_lines strtod st ls = foldl (loop_body strtod) st ls"

text \<open>
  The reader object is its map.  The file system is a partial map from a file name to
  the lines that the successive \<^verbatim>\<open>getline\<close> calls return; \<open>None\<close> is a file that
  cannot be opened.  \<^verbatim>\<open>std::cerr\<close> is the list of lines written to it.

  \<^verbatim>\<open>readMatFile\<close> returns \<^verbatim>\<open>void\<close> on both paths; nothing in it throws or exits.
  The map is never cleared: the loop starts from the map the reader holds.
\<close>

record 'd MatFileReader =
  reader_materials :: "'d materials"
  cerr :: "string list"

definition new_MatFileReader :: "'d MatFileReader" where
  "new_MatFileReader = \<lparr>reader_materials = Map.empty, cerr = []\<rparr>"

definition readMatFile ::
  "(string \<Rightarrow> 'd option) \<Rightarrow> (string \<rightharpoonup> string list) \<Rightarrow> string \<Rightarrow> 'd MatFileReader \<Rightarrow> 'd MatFileReader" where
  "readMatFile strtod fs filename rd =
     (case fs filename of
        None \<Rightarrow> rd\<lparr>cerr := cerr rd @ [''Failed to open file: '' @ filename]\<rparr>
      | Some ls \<Rightarrow>
          rd\<lparr>reader_materials :=
                materials (read_lines strtod (loop_init (reader_materials rd)) ls)\<rparr>)"

section \<open>The manifest reader (\<^verbatim>\<open>main\<close>)\<close>

subsection \<open>Strings\<close>

text \<open>
  \<^verbatim>\<open>s.find(pat)\<close>: the position of the first occurrence of \<open>pat\<close> in \<open>s\<close>; \<open>None\<close> is
  \<^verbatim>\<open>std::string::npos\<close>.
\<close>

fun find_sub :: "string \<Rightarrow> string \<Rightarrow> nat option" where
  "find_sub pat [] = (if pat = [] then Some 0 else None)"
| "find_sub pat (c # cs) =
     (if take (length pat) (c # cs) = pat then Some 0
      else map_option Suc (find_sub pat cs))"

text \<open>The test \<^verbatim>\<open>line.find(pat) != std::string::npos\<close>.\<close>

definition found :: "string \<Rightarrow> string \<Rightarrow> bool" where
  "found pat s = (case find_sub pat s of None \<Rightarrow> False | Some pos \<Rightarrow> True)"

text \<open>\<^verbatim>\<open>fileFolder\<close>, the directory name \<^verbatim>\<open>seamInputFiles\<close> followed by a backslash.\<close>

definition fileFolder :: string where
  "fileFolder = ''seamInputFiles'' @ [CHR 0x5C]"

definition extractFilename :: "string \<Rightarrow> string" where
  "extractFilename fullPath =
     (case find_sub fileFolder fullPath of
        Some pos \<Rightarrow> drop (pos + length fileFolder) fullPath
      | None \<Rightarrow> [])"

subsection \<open>The file manager\<close>

text \<open>
  Modelled from the spec: the class \<^verbatim>\<open>FileManager\<close> of \<^verbatim>\<open>filemanager.h\<close>, which is not
  among the source files; only its use in \<^verbatim>\<open>main\<close> is.  The spec gives it "a single
  scalar per role"; a slot that has not been set is \<open>None\<close>.
\<close>

record FileManager =
  MATFIL :: "string option"
  SUBFIL :: "string option"
  JNCFIL :: "string option"
  EXCFIL :: "string option"
  PARFIL :: "string option"

definition new_FileManager :: FileManager where
  "new_FileManager = \<lparr>MATFIL = None, SUBFIL = None, JNCFIL = None, EXCFIL = None, PARFIL = None\<rparr>"

text \<open>
  Modelled from the spec: \<^verbatim>\<open>FileManager::setMATFIL\<close> (\<^verbatim>\<open>filemanager.h\<close> is missing).
  The spec: "records the first accepted path per role (last-write-wins is not used - only
  the first line matching each role test that also passes the existence check gets stored
  per role slot)".  So a setter stores the path only into a slot that is not set yet.
\<close>

definition setMATFIL :: "string \<Rightarrow> FileManager \<Rightarrow> FileManager" where
  "setMATFIL path fm = (case MATFIL fm of None \<Rightarrow> fm\<lparr>MATFIL := Some path\<rparr> | Some p \<Rightarrow> fm)"

text \<open>Modelled from the spec: \<^verbatim>\<open>FileManager::setSUBFIL\<close>, as \<open>setMATFIL\<close>.\<close>

definition setSUBFIL :: "string \<Rightarrow> FileManager \<Rightarrow> FileManager" where
  "setSUBFIL path fm = (case SUBFIL fm of None \<Rightarrow> fm\<lparr>SUBFIL := Some path\<rparr> | Some p \<Rightarrow> fm)"

text \<open>Modelled from the spec: \<^verbatim>\<open>FileManager::setJNCFIL\<close>, as \<open>setMATFIL\<close>.\<close>

definition setJNCFIL :: "string \<Rightarrow> FileManager \<Rightarrow> FileManager" where
  "setJNCFIL path fm = (case JNCFIL fm of None \<Rightarrow> fm\<lparr>JNCFIL := Some path\<rparr> | Some p \<Rightarrow> fm)"

text \<open>Modelled from the spec: \<^verbatim>\<open>FileManager::setEXCFIL\<close>, as \<open>setMATFIL\<close>.\<close>

definition setEXCFIL :: "string \<Rightarrow> FileManager \<Rightarrow> FileManager" where
  "setEXCFIL path fm = (case EXCFIL fm of None \<Rightarrow> fm\<lparr>EXCFIL := Some path\<rparr> | Some p \<Rightarrow> fm)"

text \<open>Modelled from the spec: \<^verbatim>\<open>FileManager::setPARFIL\<close>, as \<open>setMATFIL\<close>.\<close>

definition setPARFIL :: "string \<Rightarrow> FileManager \<Rightarrow> FileManager" where
  "setPARFIL path fm = (case PARFIL fm of None \<Rightarrow> fm\<lparr>PARFIL := Some path\<rparr> | Some p \<Rightarrow> fm)"

subsection \<open>The loop of \<^verbatim>\<open>main\<close>\<close>

text \<open>
  The state of the loop: the file manager and the lines written to \<^verbatim>\<open>std::cerr\<close>.
  \<open>openable\<close> says which file names \<^verbatim>\<open>std::ifstream\<close> can open.  The tests stand in the
  order of the source; the inner test of each \<^verbatim>\<open>else\<close> branch repeats the outer one.
\<close>

record main_state =
  fileManager :: FileManager
  main_cerr :: "string list"

definition main_body :: "(string \<Rightarrow> bool) \<Rightarrow> main_state \<Rightarrow> string \<Rightarrow> main_state" where
  "main_body openable ms line =
     (if first_char line \<noteq> CHR ''C'' then ms
      else if found ''.mat'' line then
        (if openable (fileFolder @ extractFilename line)
         then ms\<lparr>fileManager := setMATFIL line (fileManager ms)\<rparr>
         else if found ''.mat'' line
         then ms\<lparr>main_cerr := main_cerr ms @ [''Error: MAT file does not exist - '' @ line]\<rparr>
         else ms)
      else if found ''.sub'' line then
        (if openable (fileFolder @ extractFilename line)
         then ms\<lparr>fileManager := setSUBFIL line (fileManager ms)\<rparr>
         else if found ''.sub'' line
         then ms\<lparr>main_cerr := main_cerr ms @ [''Error: SUB file does not exist - '' @ line]\<rparr>
         else ms)
      else if found ''.jun'' line then
        (if openable (fileFolder @ extractFilename line)
         then ms\<lparr>fileManager := setJNCFIL line (fileManager ms)\<rparr>
         else if found ''.jun'' line
         then ms\<lparr>main_cerr := main_cerr ms @ [''Error: JUN file does not exist - '' @ line]\<rparr>
         else ms)
      else if found ''.exc'' line then
        (if openable (fileFolder @ extractFilename line)
         then ms\<lparr>fileManager := setEXCFIL line (fileManager ms)\<rparr>
         else if found ''.exc'' line
         then ms\<lparr>main_cerr := main_cerr ms @ [''Error: EXC file does not exist - '' @ line]\<rparr>
         else ms)
      else if found ''.par'' line then
        (if openable (fileFolder @ extractFilename line)
         then ms\<lparr>fileManager := setPARFIL line (fileManager ms)\<rparr>
         else if found ''.par'' line
         then ms\<lparr>main_cerr := main_cerr ms @ [''Error: PAR file does not exist - '' @ line]\<rparr>
         else ms)
      else ms\<lparr>main_cerr := main_cerr ms
             @ [''Error: File does not exist or unsupported file type - '' @ line]\<rparr>)"

definition main_init :: main_state where
  "main_init = \<lparr>fileManager = new_FileManager, main_cerr = []\<rparr>"

definition read_manifest :: "(string \<Rightarrow> bool) \<Rightarrow> string list \<Rightarrow> main_state" where
  "read_manifest openable ls = foldl (main_body openable) main_init ls"

text \<open>
  \<^verbatim>\<open>main\<close>: the exit status and the state after the loop.  The manifest is the list of
  its lines, \<open>None\<close> when it cannot be opened.  The five lines printed at the end are left
  out.
\<close>

definition main :: "(string \<Rightarrow> bool) \<Rightarrow> string list option \<Rightarrow> int \<times> main_state" where
  "main openable manifest =
     (case manifest of
        None \<Rightarrow> (1, main_init\<lparr>main_cerr := [''Unable to open the input file'']\<rparr>)
      | Some ls \<Rightarrow> (0, read_manifest openable ls))"

section \<open>Notions used in the statements\<close>

subsection \<open>Lines without effect, and the numbers of a line\<close>

text \<open>
  The lines that change nothing: the three \<^verbatim>\<open>continue\<close> tests, and the empty line,
  which fails \<^verbatim>\<open>!line.empty()\<close> in both remaining tests.
\<close>

definition skipped :: "string \<Rightarrow> bool" where
  "skipped line = (line = [] \<or> first_char line = CHR ''!'' \<or> first_char line = CHR ''(''
      \<or> first_char line = CHR '')'')"

text \<open>
  The values that \<^verbatim>\<open>while (iss >> prop)\<close> extracts from a line, in order: the loop
  of \<open>read_properties\<close> without the map.
\<close>

function extract_doubles :: "(string \<Rightarrow> 'd option) \<Rightarrow> string \<Rightarrow> 'd list" where
  "extract_doubles strtod iss =
     (case get_double strtod iss of
        None \<Rightarrow> []
      | Some (prop, iss') \<Rightarrow> prop # extract_doubles strtod iss')"
  by pat_completeness auto
termination
  by (relation "measure (\<lambda>(strtod, iss). length iss)") (auto dest: get_double_shorter)

declare extract_doubles.simps [simp del]

subsection \<open>The map before and after\<close>

text \<open>The invariant of the map: every record sits under its own \<open>subsystemId\<close>.\<close>

definition keyed_by_id :: "'d materials \<Rightarrow> bool" where
  "keyed_by_id m = (\<forall>k r. m k = Some r \<longrightarrow> subsystemId r = k)"

text \<open>
  \<open>m'\<close> keeps \<open>m\<close>: every record of \<open>m\<close> is still there under its key, with the same id
  and type, and with its properties extended at the end.
\<close>

definition keeps :: "'d materials \<Rightarrow> 'd materials \<Rightarrow> bool" where
  "keeps m m' = (\<forall>k r. m k = Some r \<longrightarrow>
     (\<exists>r'. m' k = Some r' \<and> subsystemId r' = subsystemId r \<and> mtype r' = mtype r
        \<and> (\<exists>ys. properties r' = properties r @ ys)))"

subsection \<open>The properties line, token by token\<close>

lemma get_token_shorter:
  assumes "get_token s = Some (t, rest)"
  shows "length rest < length s"
proof -
  define r where "r = dropWhile isspace s"
  from assms have ne: "r \<noteq> []" and t: "t = takeWhile (\<lambda>c. \<not> isspace c) r"
    and rest: "rest = dropWhile (\<lambda>c. \<not> isspace c) r"
    by (auto simp: get_token_def r_def Let_def split: if_splits)
  from ne have "\<not> isspace (hd r)"
    unfolding r_def by (rule hd_dropWhile)
  with ne have "t \<noteq> []"
    unfolding t by (cases r) auto
  moreover have "t @ rest = r"
    unfolding t rest by simp
  ultimately have "length rest < length r"
    by (metis length_append length_greater_0_conv less_add_same_cancel2)
  moreover have "length r \<le> length s"
    unfolding r_def by (rule length_dropWhile_le)
  ultimately show ?thesis by simp
qed

text \<open>
  Following the spec's words.  The white-space separated tokens of a line; a token
  "parses as a floating-point number" when the number extraction, applied to the token
  alone, succeeds and uses up the token; the properties the spec describes are the
  numbers of the tokens from the left, up to the first token that is not a number.
\<close>

function tokens :: "string \<Rightarrow> string list" where
  "tokens s = (case get_token s of None \<Rightarrow> [] | Some (t, rest) \<Rightarrow> t # tokens rest)"
  by pat_completeness auto
termination
  by (relation "measure length") (auto dest: get_token_shorter)

declare tokens.simps [simp del]

definition parse_number :: "(string \<Rightarrow> 'd option) \<Rightarrow> string \<Rightarrow> 'd option" where
  "parse_number strtod tok =
     (case get_double strtod tok of
        None \<Rightarrow> None
      | Some (v, rest) \<Rightarrow> if rest = [] then Some v else None)"

fun numeric_tokens :: "(string \<Rightarrow> 'd option) \<Rightarrow> string list \<Rightarrow> 'd list" where
  "numeric_tokens num [] = []"
| "numeric_tokens num (t # ts) =
     (case num t of None \<Rightarrow> [] | Some v \<Rightarrow> v # numeric_tokens num ts)"

definition spec_properties :: "(string \<Rightarrow> 'd option) \<Rightarrow> string \<Rightarrow> 'd list" where
  "spec_properties strtod line = numeric_tokens (parse_number strtod) (tokens line)"

text \<open>
  A more lenient reading of the same words: a token parses as a number as soon as it
  starts with one.
\<close>

definition prefix_number :: "(string \<Rightarrow> 'd option) \<Rightarrow> string \<Rightarrow> 'd option" where
  "prefix_number strtod tok = map_option fst (get_double strtod tok)"

definition spec_properties_lenient :: "(string \<Rightarrow> 'd option) \<Rightarrow> string \<Rightarrow> 'd list" where
  "spec_properties_lenient strtod line = numeric_tokens (prefix_number strtod) (tokens line)"

text \<open>
  The first token that is not a number, if there is one, does not even start with a
  number: the extraction fails at its first character.
\<close>

fun stops_at_token :: "(string \<Rightarrow> 'd option) \<Rightarrow> string list \<Rightarrow> bool" where
  "stops_at_token strtod [] = True"
| "stops_at_token strtod (t # ts) =
     (case parse_number strtod t of
        None \<Rightarrow> (case get_double strtod t of None \<Rightarrow> True | Some x \<Rightarrow> False)
      | Some v \<Rightarrow> stops_at_token strtod ts)"

subsection \<open>Roles of the manifest lines\<close>

datatype role = Material | Subsystem | Junction | Excitation | Parameter

text \<open>The role test of the \<^verbatim>\<open>else if\<close> chain: the first marker found decides.\<close>

definition resolveRole :: "string \<Rightarrow> role option" where
  "resolveRole line =
     (if found ''.mat'' line then Some Material
      else if found ''.sub'' line then Some Subsystem
      else if found ''.jun'' line then Some Junction
      else if found ''.exc'' line then Some Excitation
      else if found ''.par'' line then Some Parameter
      else None)"

fun slot :: "role \<Rightarrow> FileManager \<Rightarrow> string option" where
  "slot Material fm = MATFIL fm"
| "slot Subsystem fm = SUBFIL fm"
| "slot Junction fm = JNCFIL fm"
| "slot Excitation fm = EXCFIL fm"
| "slot Parameter fm = PARFIL fm"

text \<open>
  A line is accepted for a role when it starts with the drive letter, passes the role
  test and names a file that can be opened.
\<close>

definition accepted :: "(string \<Rightarrow> bool) \<Rightarrow> role \<Rightarrow> string \<Rightarrow> bool" where
  "accepted openable r line =
     (first_char line = CHR ''C'' \<and> resolveRole line = Some r
      \<and> openable (fileFolder @ extractFilename line))"

subsection \<open>Example inputs\<close>

text \<open>
  A file system with one material file, the formatted example of the header comment,
  and no other file.  In the examples \<open>strtod\<close> is \<open>Some\<close>: every accepted field
  converts, and a number is shown as the text of its field.
\<close>

definition example_fs :: "string \<rightharpoonup> string list" where
  "example_fs = [''steel.mat'' \<mapsto> [''! material records'', ''1011 ISOELASTIC steel'',
      ''7.85e-6 2.07e8 8.0e7 0.3 #1061 panel_b'']]"

definition dup_fs :: "string \<rightharpoonup> string list" where
  "dup_fs = [''dup.mat'' \<mapsto> [''1011 ISOELASTIC steel'', ''1.0 2.0'', ''1011 GAS air'', ''3.0'']]"

definition glued_fs :: "string \<rightharpoonup> string list" where
  "glued_fs = [''glued.mat'' \<mapsto> [''1011 ISOELASTIC steel'', ''7.85e-6 2.07e8x 8.0e7 0.3'']]"

definition stale_fs :: "string \<rightharpoonup> string list" where
  "stale_fs = [''stale.mat'' \<mapsto> [''1011 GAS air'', ''1.2'', ''2022''],
               ''first.mat'' \<mapsto> [''! no type below'', ''2022'']]"

definition blank_fs :: "string \<rightharpoonup> string list" where
  "blank_fs = [''blank.mat'' \<mapsto> [''   '', ''1011 ISOELASTIC steel'', ''7.85e-6 2.07e8 8.0e7 0.3''],
               ''plain.mat'' \<mapsto> [''1011 ISOELASTIC steel'', ''7.85e-6 2.07e8 8.0e7 0.3'']]"

definition comma_fs :: "string \<rightharpoonup> string list" where
  "comma_fs = [''formatted.mat'' \<mapsto> ['' 1011          ISOELASTIC               steel'',
                   ''        7.85e-6    2.07e8     8.0e7       0.3     #1061            panel_b''],
               ''free.mat'' \<mapsto> ['' 1011, ISOELASTIC, steeL'',
                   ''  7.85e-6,2.07e8,8.0e7, 0.3, #1061,, panel_b'']]"

definition trailing_fs :: "string \<rightharpoonup> string list" where
  "trailing_fs = [''dup_tail.mat'' \<mapsto> [''1011 ISOELASTIC steel'', ''1.0 2.0'', ''1011 GAS air''],
                  ''tail.mat'' \<mapsto> [''1011 ISOELASTIC steel'', ''1.0 2.0'', ''2022 GAS air'', '''', ''! end'']]"

definition seam_path :: "string \<Rightarrow> string" where
  "seam_path name = ''C:'' @ [CHR 0x5C] @ ''work'' @ [CHR 0x5C] @ fileFolder @ name"

definition example_manifest :: "string list" where
  "example_manifest = [seam_path ''old.mat'', ''D: other drive'', seam_path ''steel.mat'',
     seam_path ''plates.sub'', seam_path ''rubber.mat'']"

definition example_openable :: "string \<Rightarrow> bool" where
  "example_openable f = (f \<in> set [fileFolder @ ''steel.mat'', fileFolder @ ''plates.sub'',
     fileFolder @ ''rubber.mat''])"

lemmas eval_simps =
  readMatFile_def read_lines_def loop_init_def loop_body_def first_char_def read_header_def
  get_token_def isspace_def map_insert_def mk_SubsystemMaterial_def read_properties.simps
  get_double_def scan_float_def scan_body.simps float_syntax_def exponent_syntax_def isdigit_def
  is_sign_def is_exp_def new_MatFileReader_def extract_doubles.simps skipped_def

lemmas token_simps =
  tokens.simps parse_number_def spec_properties_def prefix_number_def
  spec_properties_lenient_def

lemmas manifest_simps =
  accepted_def resolveRole_def found_def extractFilename_def fileFolder_def first_char_def
  seam_path_def example_openable_def

section \<open>Lemmas\<close>

subsection \<open>One pass of the loop\<close>

lemma loop_body_skipped: "skipped line \<Longrightarrow> loop_body strtod st line = st"
  by (auto simp: skipped_def loop_body_def)

lemma read_lines_skipped: "list_all skipped ls \<Longrightarrow> read_lines strtod st ls = st"
  by (induction ls) (simp_all add: read_lines_def loop_body_skipped)

lemma read_lines_append:
  "read_lines strtod st (xs @ ys) = read_lines strtod (read_lines strtod st xs) ys"
  by (simp add: read_lines_def)

lemma read_lines_Cons:
  "read_lines strtod st (x # xs) = read_lines strtod (loop_body strtod st x) xs"
  by (simp add: read_lines_def)

lemma read_lines_Nil: "read_lines strtod st [] = st"
  by (simp add: read_lines_def)

lemma loop_body_header:
  assumes "\<not> skipped line" "lineCount st = 1"
  shows "loop_body strtod st line =
     st\<lparr>materials :=
          map_insert (fst (read_header line (currentSubsystemId st, currentType st)))
            (mk_SubsystemMaterial (fst (read_header line (currentSubsystemId st, currentType st)))
               (snd (read_header line (currentSubsystemId st, currentType st))))
            (materials st),
        currentSubsystemId := fst (read_header line (currentSubsystemId st, currentType st)),
        currentType := snd (read_header line (currentSubsystemId st, currentType st)),
        lineCount := 2\<rparr>"
  using assms by (simp add: skipped_def loop_body_def split: prod.splits)

lemma loop_body_properties:
  assumes "\<not> skipped line" "lineCount st = 2"
  shows "loop_body strtod st line =
     st\<lparr>materials := read_properties strtod (currentSubsystemId st) line (materials st),
        lineCount := 1\<rparr>"
  using assms by (simp add: skipped_def loop_body_def)

lemma read_properties_absent:
  "m cid = None \<Longrightarrow> read_properties strtod cid iss m = m"
proof (induction strtod cid iss m rule: read_properties.induct)
  case (1 strtod cid iss m)
  show ?case
  proof (cases "get_double strtod iss")
    case None
    then show ?thesis by (simp add: read_properties.simps)
  next
    case (Some a)
    obtain v iss' where a: "a = (v, iss')" by (cases a)
    from "1.IH" [OF Some a [symmetric]] "1.prems" Some a show ?thesis
      by (simp add: read_properties.simps [of strtod cid iss m])
  qed
qed

lemma read_properties_present:
  "m cid = Some mat \<Longrightarrow>
   read_properties strtod cid iss m =
     m(cid \<mapsto> mat\<lparr>properties := properties mat @ extract_doubles strtod iss\<rparr>)"
proof (induction strtod cid iss m arbitrary: mat rule: read_properties.induct)
  case (1 strtod cid iss m)
  show ?case
  proof (cases "get_double strtod iss")
    case None
    with "1.prems" show ?thesis
      by (simp add: read_properties.simps [of strtod cid iss m]
            extract_doubles.simps [of strtod iss] map_upd_triv)
  next
    case (Some a)
    obtain v iss' where a: "a = (v, iss')" by (cases a)
    define mat' where "mat' = mat\<lparr>properties := properties mat @ [v]\<rparr>"
    define m' where "m' = m(cid \<mapsto> mat')"
    have next_map: "(case m cid of None \<Rightarrow> m
        | Some mat \<Rightarrow> m(cid \<mapsto> mat\<lparr>properties := properties mat @ [v]\<rparr>)) = m'"
      using "1.prems" by (simp add: m'_def mat'_def)
    have present: "m' cid = Some mat'"
      by (simp add: m'_def)
    have step: "read_properties strtod cid iss m = read_properties strtod cid iss' m'"
      using Some a next_map by (simp add: read_properties.simps [of strtod cid iss m])
    have ih: "read_properties strtod cid iss' m' =
        m'(cid \<mapsto> mat'\<lparr>properties := properties mat' @ extract_doubles strtod iss'\<rparr>)"
      using "1.IH" [OF Some a [symmetric], unfolded next_map, OF present] .
    have ex: "extract_doubles strtod iss = v # extract_doubles strtod iss'"
      using Some a by (simp add: extract_doubles.simps [of strtod iss])
    have "m'(cid \<mapsto> mat'\<lparr>properties := properties mat' @ extract_doubles strtod iss'\<rparr>) =
        m(cid \<mapsto> mat\<lparr>properties := properties mat @ extract_doubles strtod iss\<rparr>)"
      by (simp add: m'_def mat'_def ex)
    with step ih show ?thesis by simp
  qed
qed

subsection \<open>A header line and the properties line after it\<close>

lemma readMatFile_opened:
  "fs filename = Some ls \<Longrightarrow>
   reader_materials (readMatFile strtod fs filename rd)
     = materials (read_lines strtod (loop_init (reader_materials rd)) ls)"
  by (simp add: readMatFile_def)

lemma read_header_first:
  "get_token h = Some (ident, rest) \<Longrightarrow> fst (read_header h cur) = ident"
  by (simp add: read_header_def split: option.splits)

lemma read_header_one_token:
  "get_token h = Some (ident, rest) \<Longrightarrow> get_token rest = None \<Longrightarrow>
   read_header h cur = (ident, snd cur)"
  by (simp add: read_header_def)

lemma header_step:
  assumes "lineCount st = 1" "\<not> skipped h" "get_token h = Some (ident, rest)"
  shows "materials (loop_body strtod st h)
           = map_insert ident
               (mk_SubsystemMaterial ident
                  (snd (read_header h (currentSubsystemId st, currentType st))))
               (materials st)"
    and "currentSubsystemId (loop_body strtod st h) = ident"
    and "lineCount (loop_body strtod st h) = 2"
  using assms by (simp_all add: loop_body_header read_header_first)

lemma properties_step:
  assumes "lineCount st = 2" "\<not> skipped p"
  shows "materials (loop_body strtod st p)
           = read_properties strtod (currentSubsystemId st) p (materials st)"
    and "lineCount (loop_body strtod st p) = 1"
  using assms by (simp_all add: loop_body_properties)

lemma record_pair_existing:
  assumes "lineCount st = 1" "materials st ident = Some old"
    and "\<not> skipped h" "get_token h = Some (ident, rest)" "\<not> skipped p"
  shows "materials (read_lines strtod st [h, p])
           = (materials st)(ident \<mapsto> old\<lparr>properties := properties old @ extract_doubles strtod p\<rparr>)"
proof -
  let ?st1 = "loop_body strtod st h"
  have m1: "materials ?st1 = materials st"
    using header_step(1) [OF assms(1,3,4)] assms(2) by (simp add: map_insert_def)
  have "materials (loop_body strtod ?st1 p) = read_properties strtod ident p (materials st)"
    using properties_step(1) [of ?st1 p strtod] header_step(2,3) [OF assms(1,3,4)] assms(5) m1
    by simp
  then show ?thesis
    using assms(2) by (simp add: read_lines_Cons read_lines_Nil read_properties_present)
qed

lemma record_pair_new:
  assumes "lineCount st = 1" "materials st ident = None"
    and "\<not> skipped h" "get_token h = Some (ident, rest)" "\<not> skipped p"
  shows "materials (read_lines strtod st [h, p])
           = (materials st)(ident \<mapsto>
               \<lparr>subsystemId = ident,
                mtype = snd (read_header h (currentSubsystemId st, currentType st)),
                properties = extract_doubles strtod p\<rparr>)"
proof -
  let ?st1 = "loop_body strtod st h"
  let ?tp = "snd (read_header h (currentSubsystemId st, currentType st))"
  have m1: "materials ?st1 = (materials st)(ident \<mapsto> mk_SubsystemMaterial ident ?tp)"
    using header_step(1) [OF assms(1,3,4)] assms(2) by (simp add: map_insert_def)
  have "materials (loop_body strtod ?st1 p) = read_properties strtod ident p (materials ?st1)"
    using properties_step(1) [of ?st1 p strtod] header_step(2,3) [OF assms(1,3,4)] assms(5)
    by simp
  then show ?thesis
    by (simp add: read_lines_Cons read_lines_Nil m1
          read_properties_present [of _ ident "mk_SubsystemMaterial ident ?tp"]
          mk_SubsystemMaterial_def)
qed

subsection \<open>Records are stored under their own id\<close>

lemma keyed_by_id_empty: "keyed_by_id Map.empty"
  by (simp add: keyed_by_id_def)

lemma keyed_by_id_map_insert:
  "keyed_by_id m \<Longrightarrow> keyed_by_id (map_insert k (mk_SubsystemMaterial k tp) m)"
  by (auto simp: keyed_by_id_def map_insert_def mk_SubsystemMaterial_def split: option.splits)

lemma keyed_by_id_read_properties:
  assumes "keyed_by_id m"
  shows "keyed_by_id (read_properties strtod cid iss m)"
proof (cases "m cid")
  case None
  with assms show ?thesis by (simp add: read_properties_absent)
next
  case (Some mat)
  with assms have "subsystemId mat = cid" by (simp add: keyed_by_id_def)
  with assms Some show ?thesis
    by (auto simp: read_properties_present keyed_by_id_def)
qed

lemma keyed_by_id_loop_body:
  assumes "keyed_by_id (materials st)"
  shows "keyed_by_id (materials (loop_body strtod st line))"
proof -
  have "keyed_by_id (materials (loop_body strtod st line))"
    if "\<not> skipped line" "lineCount st = 1"
    using that assms by (simp add: loop_body_header keyed_by_id_map_insert)
  moreover have "keyed_by_id (materials (loop_body strtod st line))"
    if "\<not> skipped line" "lineCount st = 2"
    using that assms by (simp add: loop_body_properties keyed_by_id_read_properties)
  moreover have "loop_body strtod st line = st"
    if "skipped line \<or> (lineCount st \<noteq> 1 \<and> lineCount st \<noteq> 2)"
    using that by (auto simp: loop_body_def skipped_def)
  ultimately show ?thesis using assms by metis
qed

lemma keyed_by_id_read_lines:
  "keyed_by_id (materials st) \<Longrightarrow> keyed_by_id (materials (read_lines strtod st ls))"
  by (induction ls arbitrary: st) (simp_all add: read_lines_Nil read_lines_Cons keyed_by_id_loop_body)

lemma keyed_by_id_readMatFile:
  "keyed_by_id (reader_materials rd) \<Longrightarrow>
   keyed_by_id (reader_materials (readMatFile strtod fs filename rd))"
  by (cases "fs filename")
     (simp_all add: readMatFile_def keyed_by_id_read_lines loop_init_def)

subsection \<open>What a call keeps of the map it starts from\<close>

lemma keeps_refl: "keeps m m"
  by (simp add: keeps_def)

lemma keeps_trans:
  assumes "keeps m1 m2" "keeps m2 m3"
  shows "keeps m1 m3"
  unfolding keeps_def
proof (intro allI impI)
  fix k r
  assume "m1 k = Some r"
  with assms(1) obtain r2 ys where r2: "m2 k = Some r2" "subsystemId r2 = subsystemId r"
    "mtype r2 = mtype r" "properties r2 = properties r @ ys"
    unfolding keeps_def by blast
  with assms(2) obtain r3 zs where r3: "m3 k = Some r3" "subsystemId r3 = subsystemId r2"
    "mtype r3 = mtype r2" "properties r3 = properties r2 @ zs"
    unfolding keeps_def by blast
  from r2 r3 have "properties r3 = properties r @ (ys @ zs)" by simp
  with r2 r3 show "\<exists>r'. m3 k = Some r' \<and> subsystemId r' = subsystemId r \<and> mtype r' = mtype r
        \<and> (\<exists>ys. properties r' = properties r @ ys)"
    by auto
qed

lemma keeps_map_insert: "keeps m (map_insert k v m)"
  by (auto simp: keeps_def map_insert_def split: option.splits)

lemma keeps_read_properties: "keeps m (read_properties strtod cid iss m)"
proof (cases "m cid")
  case None
  then show ?thesis by (simp add: read_properties_absent keeps_refl)
next
  case (Some mat)
  then show ?thesis
    by (auto simp: read_properties_present keeps_def)
qed

lemma keeps_loop_body: "keeps (materials st) (materials (loop_body strtod st line))"
proof -
  have "keeps (materials st) (materials (loop_body strtod st line))"
    if "\<not> skipped line" "lineCount st = 1"
    using that by (simp add: loop_body_header keeps_map_insert)
  moreover have "keeps (materials st) (materials (loop_body strtod st line))"
    if "\<not> skipped line" "lineCount st = 2"
    using that by (simp add: loop_body_properties keeps_read_properties)
  moreover have "loop_body strtod st line = st"
    if "skipped line \<or> (lineCount st \<noteq> 1 \<and> lineCount st \<noteq> 2)"
    using that by (auto simp: loop_body_def skipped_def)
  ultimately show ?thesis using keeps_refl [of "materials st"] by metis
qed

lemma keeps_read_lines: "keeps (materials st) (materials (read_lines strtod st ls))"
proof (induction ls arbitrary: st)
  case Nil
  show ?case by (simp add: read_lines_Nil keeps_refl)
next
  case (Cons l ls)
  show ?case
    using keeps_trans [OF keeps_loop_body Cons.IH] by (simp add: read_lines_Cons)
qed

lemma keeps_readMatFile:
  "keeps (reader_materials rd) (reader_materials (readMatFile strtod fs filename rd))"
proof (cases "fs filename")
  case None
  then show ?thesis by (simp add: readMatFile_def keeps_refl)
next
  case (Some ls)
  show ?thesis
    using keeps_read_lines [of "loop_init (reader_materials rd)" strtod ls] Some
    by (simp add: readMatFile_opened loop_init_def)
qed

subsection \<open>Numbers and white-space tokens\<close>

lemma isspace_not_numeric:
  assumes "isspace c"
  shows "\<not> isdigit c" "c \<noteq> CHR ''.''" "\<not> is_exp c" "\<not> is_sign c"
  using assms by (auto simp: isspace_def isdigit_def is_exp_def is_sign_def)

lemma scan_body_stops:
  assumes "rest = [] \<or> isspace (hd rest)"
  shows "scan_body fm fd fs rest = ([], rest)"
proof (cases rest)
  case Nil
  then show ?thesis by (simp add: scan_body_Nil)
next
  case (Cons c cs)
  with assms have "isspace c" by simp
  then show ?thesis
    unfolding Cons using isspace_not_numeric [of c] by (simp add: scan_body.simps(2))
qed

lemma scan_body_tail:
  assumes "rest = [] \<or> isspace (hd rest)"
  shows "scan_body fm fd fs (t @ rest)
           = (fst (scan_body fm fd fs t), snd (scan_body fm fd fs t) @ rest)"
proof (induction fm fd fs t rule: scan_body.induct)
  case (1 fm fd fs)
  show ?case using scan_body_stops [OF assms] by (simp add: scan_body_Nil)
next
  case (2 fm fd fs c cs)
  note whole = scan_body.simps(2) [of fm fd fs c "cs @ rest"]
  note part = scan_body.simps(2) [of fm fd fs c cs]
  show ?case
  proof (cases "isdigit c")
    case True
    have w: "scan_body fm fd fs (c # cs @ rest)
        = (c # fst (scan_body True fd fs (cs @ rest)), snd (scan_body True fd fs (cs @ rest)))"
      by (subst whole) (use True in \<open>simp add: split_beta\<close>)
    have p: "scan_body fm fd fs (c # cs)
        = (c # fst (scan_body True fd fs cs), snd (scan_body True fd fs cs))"
      by (subst part) (use True in \<open>simp add: split_beta\<close>)
    show ?thesis
      unfolding append_Cons w p using "2.IH"(1) [OF True] by simp
  next
    case nd: False
    show ?thesis
    proof (cases "c = CHR ''.'' \<and> \<not> fd \<and> \<not> fs")
      case True
      have w: "scan_body fm fd fs (c # cs @ rest)
          = (c # fst (scan_body fm True fs (cs @ rest)), snd (scan_body fm True fs (cs @ rest)))"
        by (subst whole) (use nd True in \<open>simp add: split_beta\<close>)
      have p: "scan_body fm fd fs (c # cs)
          = (c # fst (scan_body fm True fs cs), snd (scan_body fm True fs cs))"
        by (subst part) (use nd True in \<open>simp add: split_beta\<close>)
      show ?thesis
        unfolding append_Cons w p using "2.IH"(2) [OF nd True] by simp
    next
      case np: False
      show ?thesis
      proof (cases "is_exp c \<and> \<not> fs \<and> fm")
        case ex: True
        then have nodot: "c \<noteq> CHR ''.''"
          by (auto simp: is_exp_def)
        have w: "scan_body fm fd fs (c # cs @ rest)
            = (case cs @ rest of
                 [] \<Rightarrow> ([c], [])
               | s # cs' \<Rightarrow>
                   if is_sign s
                   then (c # s # fst (scan_body fm fd True cs'), snd (scan_body fm fd True cs'))
                   else (c # fst (scan_body fm fd True (cs @ rest)),
                         snd (scan_body fm fd True (cs @ rest))))"
          by (subst whole) (use nd nodot ex in \<open>simp add: split_beta split: list.splits\<close>)
        have p: "scan_body fm fd fs (c # cs)
            = (case cs of
                 [] \<Rightarrow> ([c], [])
               | s # cs' \<Rightarrow>
                   if is_sign s
                   then (c # s # fst (scan_body fm fd True cs'), snd (scan_body fm fd True cs'))
                   else (c # fst (scan_body fm fd True cs), snd (scan_body fm fd True cs)))"
          by (subst part) (use nd nodot ex in \<open>simp add: split_beta split: list.splits\<close>)
        show ?thesis
        proof (cases cs)
          case Nil
          show ?thesis
          proof (cases rest)
            case empty: Nil
            show ?thesis unfolding append_Cons w p by (simp add: Nil empty)
          next
            case (Cons s rest')
            with assms have sp: "isspace s" by simp
            have stop: "scan_body fm fd True rest = ([], rest)"
              by (rule scan_body_stops [OF assms])
            show ?thesis
              unfolding append_Cons w p
              using isspace_not_numeric(4) [OF sp] stop by (simp add: Nil Cons)
          qed
        next
          case (Cons s cs')
          show ?thesis
          proof (cases "is_sign s")
            case True
            show ?thesis
              unfolding append_Cons w p
              using "2.IH"(3) [OF nd np ex Cons True] True by (simp add: Cons)
          next
            case False
            show ?thesis
              unfolding append_Cons w p
              using "2.IH"(4) [OF nd np ex Cons False] False by (simp add: Cons)
          qed
        qed
      next
        case False
        have w: "scan_body fm fd fs (c # cs @ rest) = ([], c # cs @ rest)"
          by (subst whole) (use nd np False in auto)
        have p: "scan_body fm fd fs (c # cs) = ([], c # cs)"
          by (subst part) (use nd np False in auto)
        show ?thesis
          unfolding append_Cons w p by simp
      qed
    qed
  qed
qed

lemma scan_float_tail:
  assumes "rest = [] \<or> isspace (hd rest)"
  shows "scan_float (t @ rest) = (fst (scan_float t), snd (scan_float t) @ rest)"
proof (cases t)
  case Nil
  have "scan_float rest = ([], rest)"
  proof (cases rest)
    case Nil
    then show ?thesis by (simp add: scan_float_def)
  next
    case (Cons s rest')
    with assms have "isspace s" by simp
    with Cons scan_body_stops [OF assms, of False False False] isspace_not_numeric(4) [of s]
    show ?thesis by (simp add: scan_float_def)
  qed
  with Nil show ?thesis by (simp add: scan_float_def)
next
  case (Cons c cs)
  then show ?thesis
    using scan_body_tail [OF assms, of False False False cs]
      scan_body_tail [OF assms, of False False False "c # cs"]
    by (simp add: scan_float_def split_beta)
qed

lemma get_double_tail:
  assumes "t \<noteq> []" "\<not> isspace (hd t)" "rest = [] \<or> isspace (hd rest)"
  shows "get_double strtod (t @ rest)
           = (case get_double strtod t of None \<Rightarrow> None | Some (v, r) \<Rightarrow> Some (v, r @ rest))"
proof -
  from assms(1,2) have nows: "dropWhile isspace (t @ rest) = t @ rest" "dropWhile isspace t = t"
    by (cases t; simp)+
  show ?thesis
    using assms(1) scan_float_tail [OF assms(3), of t]
    by (simp add: get_double_def nows split_beta split: option.splits)
qed

lemma get_token_None: "get_token s = None \<Longrightarrow> get_double strtod s = None"
  by (simp add: get_token_def get_double_def Let_def split: if_splits)

lemma get_token_Some:
  assumes "get_token s = Some (t, rest)"
  shows "get_double strtod s
           = (case get_double strtod t of None \<Rightarrow> None | Some (v, r) \<Rightarrow> Some (v, r @ rest))"
proof -
  define r where "r = dropWhile isspace s"
  from assms have ne: "r \<noteq> []" and t: "t = takeWhile (\<lambda>c. \<not> isspace c) r"
    and rest: "rest = dropWhile (\<lambda>c. \<not> isspace c) r"
    by (auto simp: get_token_def r_def Let_def split: if_splits)
  from ne have first: "\<not> isspace (hd r)"
    unfolding r_def by (rule hd_dropWhile)
  with ne have t_ne: "t \<noteq> []" and t_hd: "\<not> isspace (hd t)"
    unfolding t by (cases r; auto)+
  have rest_hd: "rest = [] \<or> isspace (hd rest)"
    unfolding rest using hd_dropWhile [of "\<lambda>c. \<not> isspace c" r] by auto
  have split: "t @ rest = r"
    unfolding t rest by simp
  have "get_double strtod s = get_double strtod r"
    by (simp add: get_double_def r_def)
  also have "\<dots> = get_double strtod (t @ rest)"
    by (simp add: split)
  also have "\<dots> = (case get_double strtod t of None \<Rightarrow> None | Some (v, r) \<Rightarrow> Some (v, r @ rest))"
    by (rule get_double_tail [OF t_ne t_hd rest_hd])
  finally show ?thesis .
qed

lemma extract_doubles_tokens:
  "stops_at_token strtod (tokens line) \<Longrightarrow>
   extract_doubles strtod line = spec_properties strtod line"
  unfolding spec_properties_def
proof (induction line rule: tokens.induct)
  case (1 s)
  show ?case
  proof (cases "get_token s")
    case None
    then show ?thesis
      by (simp add: tokens.simps [of s] extract_doubles.simps [of strtod s] get_token_None)
  next
    case (Some a)
    obtain t rest where a: "a = (t, rest)" by (cases a)
    have toks: "tokens s = t # tokens rest"
      using Some a by (simp add: tokens.simps [of s])
    note gd = get_token_Some [OF Some [unfolded a], of strtod]
    show ?thesis
    proof (cases "parse_number strtod t")
      case None
      with "1.prems" toks have "get_double strtod t = None"
        by (simp split: option.splits)
      with gd have "get_double strtod s = None" by simp
      with None toks show ?thesis
        by (simp add: extract_doubles.simps [of strtod s])
    next
      case (Some v)
      then have "get_double strtod t = Some (v, [])"
        by (auto simp: parse_number_def split: option.splits if_splits)
      with gd have "get_double strtod s = Some (v, rest)" by simp
      then have "extract_doubles strtod s = v # extract_doubles strtod rest"
        by (simp add: extract_doubles.simps [of strtod s])
      moreover from "1.prems" toks Some have "stops_at_token strtod (tokens rest)"
        by simp
      ultimately show ?thesis
        using "1.IH" [OF \<open>get_token s = Some a\<close> a [symmetric]] toks Some by simp
    qed
  qed
qed

subsection \<open>The slots after the manifest loop\<close>

lemma slot_main_body:
  "slot r (fileManager (main_body openable ms line))
     = (case slot r (fileManager ms) of
          Some p \<Rightarrow> Some p
        | None \<Rightarrow> if accepted openable r line then Some line else None)"
  by (cases r)
     (simp_all add: main_body_def accepted_def resolveRole_def setMATFIL_def setSUBFIL_def
        setJNCFIL_def setEXCFIL_def setPARFIL_def split: option.splits)

lemma slot_foldl_main_body:
  "slot r (fileManager (foldl (main_body openable) ms ls))
     = (case slot r (fileManager ms) of
          Some p \<Rightarrow> Some p
        | None \<Rightarrow> List.find (accepted openable r) ls)"
proof (induction ls arbitrary: ms)
  case Nil
  show ?case by (simp split: option.splits)
next
  case (Cons l ls)
  show ?case
    by (simp add: Cons.IH slot_main_body split: option.splits)
qed

lemma slot_read_manifest:
  "slot r (fileManager (read_manifest openable ls)) = List.find (accepted openable r) ls"
  using slot_foldl_main_body [of r openable main_init ls]
  by (cases r) (simp_all add: read_manifest_def main_init_def new_FileManager_def)

lemma find_append_first:
  "\<not> list_ex P xs \<Longrightarrow> P x \<Longrightarrow> List.find P (xs @ x # ys) = Some x"
  by (induction xs) simp_all

subsection \<open>The example file, read once and twice\<close>

lemma example_fs_steel:
  "reader_materials (readMatFile Some example_fs ''steel.mat'' new_MatFileReader) ''1011''
     = Some \<lparr>subsystemId = ''1011'', mtype = ''ISOELASTIC'',
         properties = [''7.85e-6'', ''2.07e8'', ''8.0e7'', ''0.3'']\<rparr>"
  by (simp add: eval_simps example_fs_def)

lemma example_fs_steel_twice:
  "reader_materials (readMatFile Some example_fs ''steel.mat''
       (readMatFile Some example_fs ''steel.mat'' new_MatFileReader)) ''1011''
     = Some \<lparr>subsystemId = ''1011'', mtype = ''ISOELASTIC'',
         properties = [''7.85e-6'', ''2.07e8'', ''8.0e7'', ''0.3'',
                       ''7.85e-6'', ''2.07e8'', ''8.0e7'', ''0.3'']\<rparr>"
  by (simp add: eval_simps example_fs_def)

section \<open>The claims\<close>

subsection \<open>C1: two records with the same id\<close>

text \<open>
  C1 (as stated, refuted).  A file with two records under the id \<open>1011\<close>: the map does not
  hold the later record (type \<open>GAS\<close>, properties \<open>3.0\<close>) but the earlier one, with the
  later record's number appended to its properties.
\<close>

theorem duplicate_id_not_replaced:
  "reader_materials (readMatFile Some dup_fs ''dup.mat'' new_MatFileReader) ''1011''
     = Some \<lparr>subsystemId = ''1011'', mtype = ''ISOELASTIC'', properties = [''1.0'', ''2.0'', ''3.0'']\<rparr>
   \<and> reader_materials (readMatFile Some dup_fs ''dup.mat'' new_MatFileReader) ''1011''
     \<noteq> Some \<lparr>subsystemId = ''1011'', mtype = ''GAS'', properties = [''3.0'']\<rparr>"
  by (simp add: eval_simps dup_fs_def)

text \<open>
  C1 (amended).  When the loop is in the header phase and the map already holds a record
  \<open>old\<close> under the id of the header line \<open>h\<close>, then after \<open>h\<close> and the properties line \<open>p\<close>
  the map is the one before, except that the numbers of \<open>p\<close> are appended to the
  properties of \<open>old\<close>: one record under the id, with the id and type of the earlier
  record and the properties of both.
\<close>

theorem duplicate_id_keeps_first_record:
  assumes "fs filename = Some (pre @ [h, p])"
    and "st = read_lines strtod (loop_init (reader_materials rd)) pre"
    and "lineCount st = 1" "materials st ident = Some old"
    and "\<not> skipped h" "get_token h = Some (ident, rest)" "\<not> skipped p"
  shows "reader_materials (readMatFile strtod fs filename rd)
           = (materials st)(ident \<mapsto>
               old\<lparr>properties := properties old @ extract_doubles strtod p\<rparr>)"
  using assms(1,2) record_pair_existing [OF assms(3-7)]
  by (simp add: readMatFile_opened read_lines_append)

theorem duplicate_id_keeps_first_record_witness:
  "dup_fs ''dup.mat'' = Some ([''1011 ISOELASTIC steel'', ''1.0 2.0''] @ [''1011 GAS air'', ''3.0''])
   \<and> lineCount (read_lines Some (loop_init Map.empty) [''1011 ISOELASTIC steel'', ''1.0 2.0'']) = 1
   \<and> materials (read_lines Some (loop_init Map.empty) [''1011 ISOELASTIC steel'', ''1.0 2.0'']) ''1011''
       = Some \<lparr>subsystemId = ''1011'', mtype = ''ISOELASTIC'', properties = [''1.0'', ''2.0'']\<rparr>
   \<and> \<not> skipped ''1011 GAS air''
   \<and> get_token ''1011 GAS air'' = Some (''1011'', '' GAS air'')
   \<and> \<not> skipped ''3.0''
   \<and> reader_materials (readMatFile Some dup_fs ''dup.mat'' new_MatFileReader)
       = [''1011'' \<mapsto> \<lparr>subsystemId = ''1011'', mtype = ''ISOELASTIC'',
            properties = [''1.0'', ''2.0'', ''3.0'']\<rparr>]"
proof -
  let ?pre = "[''1011 ISOELASTIC steel'', ''1.0 2.0'']"
  let ?st = "read_lines Some (loop_init (reader_materials (new_MatFileReader :: string MatFileReader))) ?pre"
  let ?old = "\<lparr>subsystemId = ''1011'', mtype = ''ISOELASTIC'', properties = [''1.0'', ''2.0'']\<rparr>"
  have opened: "dup_fs ''dup.mat'' = Some (?pre @ [''1011 GAS air'', ''3.0''])"
    by (simp add: dup_fs_def)
  have phase: "lineCount ?st = 1"
    by (simp add: eval_simps)
  have st_map: "materials ?st = [''1011'' \<mapsto> ?old]"
    by (simp add: eval_simps)
  then have earlier: "materials ?st ''1011'' = Some ?old"
    by simp
  have h: "\<not> skipped ''1011 GAS air''" "get_token ''1011 GAS air'' = Some (''1011'', '' GAS air'')"
    "\<not> skipped ''3.0''"
    by (simp_all add: eval_simps)
  have nums: "extract_doubles Some ''3.0'' = [''3.0'']"
    by (simp add: eval_simps)
  from duplicate_id_keeps_first_record [where fs = dup_fs and filename = "''dup.mat''"
      and strtod = Some and rd = new_MatFileReader and pre = ?pre, OF opened refl phase earlier h]
  have "reader_materials (readMatFile Some dup_fs ''dup.mat'' new_MatFileReader)
      = [''1011'' \<mapsto> \<lparr>subsystemId = ''1011'', mtype = ''ISOELASTIC'',
            properties = [''1.0'', ''2.0'', ''3.0'']\<rparr>]"
    by (simp add: st_map nums)
  with opened phase earlier h show ?thesis
    by (simp add: new_MatFileReader_def)
qed

subsection \<open>C2: the comma-delimited free format\<close>

text \<open>
  C2.  The two examples of the header comment of the source, the formatted record and
  the same record "in a free format with comma delimiters".  The reader splits at white
  space only: of the free format it keeps the commas in the id and the type, and reads
  one number, because the comma after it ends the extraction.
\<close>

theorem comma_format_differs:
  "reader_materials (readMatFile Some comma_fs ''formatted.mat'' new_MatFileReader)
     = [''1011'' \<mapsto> \<lparr>subsystemId = ''1011'', mtype = ''ISOELASTIC'',
          properties = [''7.85e-6'', ''2.07e8'', ''8.0e7'', ''0.3'']\<rparr>]
   \<and> reader_materials (readMatFile Some comma_fs ''free.mat'' new_MatFileReader)
     = [''1011,'' \<mapsto> \<lparr>subsystemId = ''1011,'', mtype = ''ISOELASTIC,'',
          properties = [''7.85e-6'']\<rparr>]"
  by (simp add: eval_simps comma_fs_def)

subsection \<open>C3: the properties of a record\<close>

text \<open>
  C3 (as stated, refuted).  The second token of the properties line, \<open>2.07e8x\<close>, is not a
  number.  The tokens that are numbers, truncated at this one, are \<open>7.85e-6\<close> alone; if a
  token counts as a number when it starts with one, all four tokens count.  The reader
  stores two numbers: the extraction takes \<open>2.07e8\<close> out of the second token and fails
  at the \<open>x\<close>.
\<close>

theorem properties_not_token_wise:
  "reader_materials (readMatFile Some glued_fs ''glued.mat'' new_MatFileReader) ''1011''
     = Some \<lparr>subsystemId = ''1011'', mtype = ''ISOELASTIC'', properties = [''7.85e-6'', ''2.07e8'']\<rparr>
   \<and> tokens ''7.85e-6 2.07e8x 8.0e7 0.3'' = [''7.85e-6'', ''2.07e8x'', ''8.0e7'', ''0.3'']
   \<and> spec_properties Some ''7.85e-6 2.07e8x 8.0e7 0.3'' = [''7.85e-6'']
   \<and> spec_properties_lenient Some ''7.85e-6 2.07e8x 8.0e7 0.3''
       = [''7.85e-6'', ''2.07e8'', ''8.0e7'', ''0.3'']
   \<and> properties (the (reader_materials
         (readMatFile Some glued_fs ''glued.mat'' new_MatFileReader) ''1011''))
       \<noteq> spec_properties Some ''7.85e-6 2.07e8x 8.0e7 0.3''"
  by (simp add: eval_simps token_simps glued_fs_def)

text \<open>
  C3 (amended).  For a header line with a new id and the properties line \<open>p\<close> after it,
  the record's properties are the numbers that successive extractions read from \<open>p\<close>,
  each after skipping white space, up to the first place where no number can be read; a
  number ends where its syntax ends, which need not be the end of a token.  When the
  first token of \<open>p\<close> that is not a number does not start with a number either, these are
  the numeric tokens of \<open>p\<close> in order, truncated at the first token that is not a number.
\<close>

theorem properties_of_record_pair:
  assumes "fs filename = Some (pre @ [h, p])"
    and "st = read_lines strtod (loop_init (reader_materials rd)) pre"
    and "lineCount st = 1" "materials st ident = None"
    and "\<not> skipped h" "get_token h = Some (ident, rest)" "\<not> skipped p"
  shows "reader_materials (readMatFile strtod fs filename rd) ident
           = Some \<lparr>subsystemId = ident,
                mtype = snd (read_header h (currentSubsystemId st, currentType st)),
                properties = extract_doubles strtod p\<rparr>
         \<and> (stops_at_token strtod (tokens p) \<longrightarrow>
              extract_doubles strtod p = spec_properties strtod p)"
  using assms(1,2) record_pair_new [OF assms(3-7)]
  by (simp add: readMatFile_opened read_lines_append extract_doubles_tokens)

theorem properties_of_record_pair_witness:
  "example_fs ''steel.mat''
     = Some ([''! material records''] @ [''1011 ISOELASTIC steel'', ''7.85e-6 2.07e8 8.0e7 0.3 #1061 panel_b''])
   \<and> lineCount (read_lines Some (loop_init Map.empty) [''! material records'']) = 1
   \<and> materials (read_lines Some (loop_init Map.empty) [''! material records'']) ''1011'' = None
   \<and> \<not> skipped ''1011 ISOELASTIC steel''
   \<and> get_token ''1011 ISOELASTIC steel'' = Some (''1011'', '' ISOELASTIC steel'')
   \<and> \<not> skipped ''7.85e-6 2.07e8 8.0e7 0.3 #1061 panel_b''
   \<and> stops_at_token Some (tokens ''7.85e-6 2.07e8 8.0e7 0.3 #1061 panel_b'')
   \<and> reader_materials (readMatFile Some example_fs ''steel.mat'' new_MatFileReader) ''1011''
       = Some \<lparr>subsystemId = ''1011'', mtype = ''ISOELASTIC'',
           properties = spec_properties Some ''7.85e-6 2.07e8 8.0e7 0.3 #1061 panel_b''\<rparr>
   \<and> spec_properties Some ''7.85e-6 2.07e8 8.0e7 0.3 #1061 panel_b''
       = [''7.85e-6'', ''2.07e8'', ''8.0e7'', ''0.3'']"
proof -
  let ?pre = "[''! material records'']"
  let ?h = "''1011 ISOELASTIC steel''"
  let ?p = "''7.85e-6 2.07e8 8.0e7 0.3 #1061 panel_b''"
  let ?st = "read_lines Some (loop_init (reader_materials (new_MatFileReader :: string MatFileReader))) ?pre"
  have opened: "example_fs ''steel.mat'' = Some (?pre @ [?h, ?p])"
    by (simp add: example_fs_def)
  have st: "lineCount ?st = 1" "materials ?st ''1011'' = None"
    by (simp_all add: eval_simps)
  have h: "\<not> skipped ?h" "get_token ?h = Some (''1011'', '' ISOELASTIC steel'')" "\<not> skipped ?p"
    by (simp_all add: eval_simps)
  have toks: "tokens ?p = [''7.85e-6'', ''2.07e8'', ''8.0e7'', ''0.3'', ''#1061'', ''panel_b'']"
    by (simp add: eval_simps token_simps)
  have stops: "stops_at_token Some (tokens ?p)"
    unfolding toks by (simp add: eval_simps token_simps)
  have spec: "spec_properties Some ?p = [''7.85e-6'', ''2.07e8'', ''8.0e7'', ''0.3'']"
    unfolding spec_properties_def toks by (simp add: eval_simps token_simps)
  have tp: "snd (read_header ?h (currentSubsystemId ?st, currentType ?st)) = ''ISOELASTIC''"
    by (simp add: eval_simps)
  from properties_of_record_pair [where fs = example_fs and filename = "''steel.mat''"
      and strtod = Some and rd = new_MatFileReader and pre = ?pre, OF opened refl st h] stops
  have "reader_materials (readMatFile Some example_fs ''steel.mat'' new_MatFileReader) ''1011''
       = Some \<lparr>subsystemId = ''1011'', mtype = ''ISOELASTIC'',
           properties = spec_properties Some ?p\<rparr>"
    by (simp only: tp)
  with opened st h stops spec show ?thesis
    by (simp add: new_MatFileReader_def)
qed

subsection \<open>C4: the first accepted path of a role\<close>

text \<open>
  C4.  When a line of the manifest is accepted for a role and no line before it is, the
  role's slot holds that line after the loop, whatever lines follow - also when later
  lines are accepted for the same role.
\<close>

theorem first_accepted_path_wins:
  assumes "accepted openable r l" "\<not> list_ex (accepted openable r) xs"
  shows "slot r (fileManager (read_manifest openable (xs @ l # ys))) = Some l"
  using assms by (simp add: slot_read_manifest find_append_first)

theorem first_accepted_path_wins_witness:
  "accepted example_openable Material (seam_path ''steel.mat'')
   \<and> \<not> list_ex (accepted example_openable Material) [seam_path ''old.mat'', ''D: other drive'']
   \<and> accepted example_openable Material (seam_path ''rubber.mat'')
   \<and> example_manifest = [seam_path ''old.mat'', ''D: other drive''] @ seam_path ''steel.mat''
         # [seam_path ''plates.sub'', seam_path ''rubber.mat'']
   \<and> slot Material (fileManager (read_manifest example_openable example_manifest))
       = Some (seam_path ''steel.mat'')"
proof -
  have first: "accepted example_openable Material (seam_path ''steel.mat'')"
    by (simp add: manifest_simps)
  have before: "\<not> list_ex (accepted example_openable Material)
      [seam_path ''old.mat'', ''D: other drive'']"
    by (simp add: manifest_simps)
  have later: "accepted example_openable Material (seam_path ''rubber.mat'')"
    by (simp add: manifest_simps)
  have shape: "example_manifest = [seam_path ''old.mat'', ''D: other drive'']
      @ seam_path ''steel.mat'' # [seam_path ''plates.sub'', seam_path ''rubber.mat'']"
    by (simp add: example_manifest_def)
  from first_accepted_path_wins [OF first before,
      of "[seam_path ''plates.sub'', seam_path ''rubber.mat'']"]
  have "slot Material (fileManager (read_manifest example_openable example_manifest))
      = Some (seam_path ''steel.mat'')"
    unfolding shape .
  with first before later shape show ?thesis by simp
qed

subsection \<open>C5: a second call on the same reader\<close>

text \<open>
  C5 (as stated, refuted).  Reading the same file a second time with the same reader
  does not give the map of one call on a new reader: the record is kept and the numbers
  of its properties line are appended once more.
\<close>

theorem second_call_differs:
  "reader_materials (readMatFile Some example_fs ''steel.mat''
       (readMatFile Some example_fs ''steel.mat'' new_MatFileReader)) ''1011''
     = Some \<lparr>subsystemId = ''1011'', mtype = ''ISOELASTIC'',
         properties = [''7.85e-6'', ''2.07e8'', ''8.0e7'', ''0.3'',
                       ''7.85e-6'', ''2.07e8'', ''8.0e7'', ''0.3'']\<rparr>
   \<and> reader_materials (readMatFile Some example_fs ''steel.mat''
       (readMatFile Some example_fs ''steel.mat'' new_MatFileReader))
     \<noteq> reader_materials (readMatFile Some example_fs ''steel.mat'' new_MatFileReader)"
proof -
  let ?once = "readMatFile Some example_fs ''steel.mat'' new_MatFileReader"
  let ?twice = "readMatFile Some example_fs ''steel.mat'' ?once"
  note twice = example_fs_steel_twice
  have "reader_materials ?twice ''1011'' \<noteq> reader_materials ?once ''1011''"
    unfolding twice example_fs_steel by simp
  then have "reader_materials ?twice \<noteq> reader_materials ?once"
    by metis
  with twice show ?thesis by simp
qed

text \<open>
  C5 (amended).  A call does not rebuild the map, it adds to the map the reader holds:
  every record there before the call is there after it, under the same key, with the
  same id and type and with its earlier properties as the beginning of its properties.
  The map after a call is determined by the lines of the file and the map before the
  call; so it depends on the file alone only for a new reader.
\<close>

theorem readMatFile_accumulates:
  "keeps (reader_materials rd) (reader_materials (readMatFile strtod fs filename rd))
   \<and> (fs filename = fs' filename' \<and> reader_materials rd = reader_materials rd' \<longrightarrow>
        reader_materials (readMatFile strtod fs filename rd)
          = reader_materials (readMatFile strtod fs' filename' rd'))"
proof (intro conjI impI)
  show "keeps (reader_materials rd) (reader_materials (readMatFile strtod fs filename rd))"
    by (rule keeps_readMatFile)
next
  assume "fs filename = fs' filename' \<and> reader_materials rd = reader_materials rd'"
  then show "reader_materials (readMatFile strtod fs filename rd)
          = reader_materials (readMatFile strtod fs' filename' rd')"
    by (simp add: readMatFile_def split: option.splits)
qed

theorem readMatFile_accumulates_witness:
  "reader_materials (readMatFile Some example_fs ''steel.mat'' new_MatFileReader) ''1011''
     = Some \<lparr>subsystemId = ''1011'', mtype = ''ISOELASTIC'',
         properties = [''7.85e-6'', ''2.07e8'', ''8.0e7'', ''0.3'']\<rparr>
   \<and> keeps (reader_materials (readMatFile Some example_fs ''steel.mat'' new_MatFileReader))
       (reader_materials (readMatFile Some example_fs ''steel.mat''
          (readMatFile Some example_fs ''steel.mat'' new_MatFileReader)))
   \<and> reader_materials (readMatFile Some example_fs ''steel.mat''
          (readMatFile Some example_fs ''steel.mat'' new_MatFileReader)) ''1011''
     = Some \<lparr>subsystemId = ''1011'', mtype = ''ISOELASTIC'',
         properties = [''7.85e-6'', ''2.07e8'', ''8.0e7'', ''0.3'']
                      @ [''7.85e-6'', ''2.07e8'', ''8.0e7'', ''0.3'']\<rparr>"
proof -
  let ?once = "readMatFile Some example_fs ''steel.mat'' new_MatFileReader"
  from example_fs_steel_twice readMatFile_accumulates [of ?once Some example_fs "''steel.mat''" example_fs "''steel.mat''" ?once]
    example_fs_steel
  show ?thesis by simp
qed

subsection \<open>C6: a file that cannot be opened\<close>

text \<open>
  C6 (as stated, refuted).  A reader that has read \<open>steel.mat\<close> is asked for a file that
  cannot be opened.  The failed call does not yield an empty map: the member map is left
  untouched and still holds the record \<open>1011\<close> of the earlier call.
\<close>

theorem failed_open_keeps_earlier_records:
  "example_fs ''missing.mat'' = None
   \<and> reader_materials (readMatFile Some example_fs ''missing.mat''
         (readMatFile Some example_fs ''steel.mat'' new_MatFileReader)) ''1011''
       = Some \<lparr>subsystemId = ''1011'', mtype = ''ISOELASTIC'',
           properties = [''7.85e-6'', ''2.07e8'', ''8.0e7'', ''0.3'']\<rparr>
   \<and> reader_materials (readMatFile Some example_fs ''missing.mat''
         (readMatFile Some example_fs ''steel.mat'' new_MatFileReader))
       \<noteq> Map.empty"
proof -
  let ?used = "readMatFile Some example_fs ''steel.mat'' (new_MatFileReader :: string MatFileReader)"
  have closed: "example_fs ''missing.mat'' = None"
    by (simp add: example_fs_def)
  then have same: "reader_materials (readMatFile Some example_fs ''missing.mat'' ?used)
      = reader_materials ?used"
    by (simp add: readMatFile_def [of Some example_fs "''missing.mat''"])
  have held: "reader_materials (readMatFile Some example_fs ''missing.mat'' ?used) ''1011''
      = Some \<lparr>subsystemId = ''1011'', mtype = ''ISOELASTIC'',
           properties = [''7.85e-6'', ''2.07e8'', ''8.0e7'', ''0.3'']\<rparr>"
    unfolding same by (rule example_fs_steel)
  then have "reader_materials (readMatFile Some example_fs ''missing.mat'' ?used) \<noteq> Map.empty"
    by (metis option.distinct(1))
  with closed held show ?thesis by simp
qed

text \<open>
  C6 (amended).  When the file cannot be opened, \<^verbatim>\<open>readMatFile\<close> returns normally: it
  writes the line \<^verbatim>\<open>Failed to open file: <name>\<close> to \<^verbatim>\<open>std::cerr\<close> and changes
  nothing else.  No record is added: the reader's map after the call is the map before
  it, which is the empty map for a new reader.
\<close>

theorem readMatFile_open_failure:
  assumes "fs filename = None"
  shows "readMatFile strtod fs filename rd
           = rd\<lparr>cerr := cerr rd @ [''Failed to open file: '' @ filename]\<rparr>
         \<and> reader_materials (readMatFile strtod fs filename rd) = reader_materials rd
         \<and> reader_materials (readMatFile strtod fs filename new_MatFileReader) = Map.empty"
  using assms by (simp add: readMatFile_def new_MatFileReader_def)

theorem readMatFile_open_failure_witness:
  "example_fs ''missing.mat'' = None
   \<and> readMatFile Some example_fs ''missing.mat'' (new_MatFileReader :: string MatFileReader)
       = \<lparr>reader_materials = Map.empty, cerr = [''Failed to open file: missing.mat'']\<rparr>
   \<and> reader_materials (readMatFile Some example_fs ''missing.mat''
         (new_MatFileReader :: string MatFileReader)) = Map.empty"
proof -
  have closed: "example_fs ''missing.mat'' = None"
    by (simp add: example_fs_def)
  from readMatFile_open_failure [of example_fs "''missing.mat''" Some new_MatFileReader] closed
  show ?thesis by (simp add: new_MatFileReader_def)
qed

subsection \<open>C7: a header line with one token\<close>

text \<open>
  C7 (as stated, refuted).  The header line \<open>2022\<close> has one token.  Its record does not
  get the empty string as type: the extraction into \<^verbatim>\<open>currentType\<close> fails and leaves the
  type of the header line before, \<open>GAS\<close>.
\<close>

theorem one_token_header_stale_type:
  "reader_materials (readMatFile Some stale_fs ''stale.mat'' new_MatFileReader) ''2022''
     = Some \<lparr>subsystemId = ''2022'', mtype = ''GAS'', properties = []\<rparr>
   \<and> mtype (the (reader_materials
         (readMatFile Some stale_fs ''stale.mat'' new_MatFileReader) ''2022'')) \<noteq> []"
  by (simp add: eval_simps stale_fs_def)

text \<open>
  C7 (amended).  A header line with exactly one token is read without error.  If no
  record is stored under that token yet, and no earlier header line of the call has left
  a type in \<^verbatim>\<open>currentType\<close>, the call ends - when this is its last line - with a new
  record under the token, with the empty string as type and no properties.
\<close>

theorem one_token_header_empty_type:
  assumes "fs filename = Some (pre @ [h])"
    and "st = read_lines strtod (loop_init (reader_materials rd)) pre"
    and "lineCount st = 1" "currentType st = []" "materials st ident = None"
    and "\<not> skipped h" "get_token h = Some (ident, rest)" "get_token rest = None"
  shows "reader_materials (readMatFile strtod fs filename rd) ident
           = Some \<lparr>subsystemId = ident, mtype = [], properties = []\<rparr>"
proof -
  have "reader_materials (readMatFile strtod fs filename rd) = materials (loop_body strtod st h)"
    using assms(1,2) by (simp add: readMatFile_opened read_lines_append read_lines_Cons read_lines_Nil)
  then show ?thesis
    using header_step(1) [OF assms(3,6,7), of strtod] assms(4,5)
      read_header_one_token [OF assms(7,8)]
    by (simp add: map_insert_def mk_SubsystemMaterial_def)
qed

theorem one_token_header_empty_type_witness:
  "stale_fs ''first.mat'' = Some ([''! no type below''] @ [''2022''])
   \<and> lineCount (read_lines Some (loop_init Map.empty) [''! no type below'']) = 1
   \<and> currentType (read_lines Some (loop_init Map.empty) [''! no type below'']) = []
   \<and> materials (read_lines Some (loop_init Map.empty) [''! no type below'']) ''2022'' = None
   \<and> \<not> skipped ''2022''
   \<and> get_token ''2022'' = Some (''2022'', [])
   \<and> get_token [] = None
   \<and> reader_materials (readMatFile Some stale_fs ''first.mat'' new_MatFileReader) ''2022''
       = Some \<lparr>subsystemId = ''2022'', mtype = [], properties = []\<rparr>"
proof -
  let ?pre = "[''! no type below'']"
  let ?st = "read_lines Some (loop_init (reader_materials (new_MatFileReader :: string MatFileReader))) ?pre"
  have opened: "stale_fs ''first.mat'' = Some (?pre @ [''2022''])"
    by (simp add: stale_fs_def)
  have st: "lineCount ?st = 1" "currentType ?st = []" "materials ?st ''2022'' = None"
    by (simp_all add: eval_simps)
  have h: "\<not> skipped ''2022''" "get_token ''2022'' = Some (''2022'', [])" "get_token [] = None"
    by (simp_all add: eval_simps)
  from one_token_header_empty_type [where fs = stale_fs and filename = "''first.mat''"
      and strtod = Some and rd = new_MatFileReader and pre = ?pre, OF opened refl st h]
  have "reader_materials (readMatFile Some stale_fs ''first.mat'' new_MatFileReader) ''2022''
       = Some \<lparr>subsystemId = ''2022'', mtype = [], properties = []\<rparr>" .
  with opened st h show ?thesis
    by (simp add: new_MatFileReader_def)
qed

subsection \<open>C8: comment, blank and bracket lines\<close>

text \<open>
  C8.  A line that is empty or starts with \<open>!\<close>, \<open>(\<close> or \<open>)\<close> changes nothing
  (\<open>loop_body_skipped\<close>).  A blank line that holds white space does: the header comment
  of the source counts it as a comment line ("A blank line (first 60 characters blank) is
  taken as a comment line"), but the loop reads it as a header line.  Here a line of three
  spaces moves the loop to the properties phase and stores a record under the empty id;
  the header line after it is then read as a properties line and the properties line as
  a header line.
\<close>

theorem blank_line_advances_phase:
  "lineCount (loop_body Some (loop_init Map.empty) ''   '') = 2
   \<and> materials (loop_body Some (loop_init Map.empty) ''   '') []
       = Some \<lparr>subsystemId = [], mtype = [], properties = []\<rparr>
   \<and> reader_materials (readMatFile Some blank_fs ''blank.mat'' new_MatFileReader)
       = [[] \<mapsto> \<lparr>subsystemId = [], mtype = [], properties = [''1011'']\<rparr>,
          ''7.85e-6'' \<mapsto> \<lparr>subsystemId = ''7.85e-6'', mtype = ''2.07e8'', properties = []\<rparr>]
   \<and> reader_materials (readMatFile Some blank_fs ''plain.mat'' new_MatFileReader)
       = [''1011'' \<mapsto> \<lparr>subsystemId = ''1011'', mtype = ''ISOELASTIC'',
            properties = [''7.85e-6'', ''2.07e8'', ''8.0e7'', ''0.3'']\<rparr>]"
  by (simp add: eval_simps blank_fs_def)

subsection \<open>C9: a header line at the end of the file\<close>

text \<open>
  C9 (as stated, refuted).  The last line is a header line, and the record under its id
  \<open>1011\<close> does not have empty properties: the id was used by an earlier record, which
  \<^verbatim>\<open>insert\<close> leaves in place.
\<close>

theorem trailing_header_duplicate_id:
  "reader_materials (readMatFile Some trailing_fs ''dup_tail.mat'' new_MatFileReader) ''1011''
     = Some \<lparr>subsystemId = ''1011'', mtype = ''ISOELASTIC'', properties = [''1.0'', ''2.0'']\<rparr>
   \<and> properties (the (reader_materials
         (readMatFile Some trailing_fs ''dup_tail.mat'' new_MatFileReader) ''1011'')) \<noteq> []"
  by (simp add: eval_simps trailing_fs_def)

text \<open>
  C9 (amended).  When the last line that is not skipped is a header line, read in the
  header phase, and no record is stored under its id yet, the call ends with a record
  under that id whose properties are empty.
\<close>

theorem trailing_header_new_id:
  assumes "fs filename = Some (pre @ h # post)"
    and "st = read_lines strtod (loop_init (reader_materials rd)) pre"
    and "lineCount st = 1" "materials st ident = None"
    and "\<not> skipped h" "get_token h = Some (ident, rest)" "list_all skipped post"
  shows "reader_materials (readMatFile strtod fs filename rd) ident
           = Some \<lparr>subsystemId = ident,
                mtype = snd (read_header h (currentSubsystemId st, currentType st)),
                properties = []\<rparr>"
proof -
  have "reader_materials (readMatFile strtod fs filename rd)
      = materials (read_lines strtod (loop_body strtod st h) post)"
    using assms(1,2) by (simp add: readMatFile_opened read_lines_append read_lines_Cons)
  also have "\<dots> = materials (loop_body strtod st h)"
    using assms(7) by (simp add: read_lines_skipped)
  finally show ?thesis
    using header_step(1) [OF assms(3,5,6), of strtod] assms(4)
    by (simp add: map_insert_def mk_SubsystemMaterial_def)
qed

theorem trailing_header_new_id_witness:
  "trailing_fs ''tail.mat''
     = Some ([''1011 ISOELASTIC steel'', ''1.0 2.0''] @ ''2022 GAS air'' # ['''', ''! end''])
   \<and> lineCount (read_lines Some (loop_init Map.empty) [''1011 ISOELASTIC steel'', ''1.0 2.0'']) = 1
   \<and> materials (read_lines Some (loop_init Map.empty) [''1011 ISOELASTIC steel'', ''1.0 2.0'']) ''2022''
       = None
   \<and> \<not> skipped ''2022 GAS air''
   \<and> get_token ''2022 GAS air'' = Some (''2022'', '' GAS air'')
   \<and> list_all skipped ['''', ''! end'']
   \<and> reader_materials (readMatFile Some trailing_fs ''tail.mat'' new_MatFileReader) ''2022''
       = Some \<lparr>subsystemId = ''2022'', mtype = ''GAS'', properties = []\<rparr>"
proof -
  let ?pre = "[''1011 ISOELASTIC steel'', ''1.0 2.0'']"
  let ?st = "read_lines Some (loop_init (reader_materials (new_MatFileReader :: string MatFileReader))) ?pre"
  have opened: "trailing_fs ''tail.mat'' = Some (?pre @ ''2022 GAS air'' # ['''', ''! end''])"
    by (simp add: trailing_fs_def)
  have phase: "lineCount ?st = 1"
    by (simp add: eval_simps)
  have fresh: "materials ?st ''2022'' = None"
    by (simp add: eval_simps)
  have h: "\<not> skipped ''2022 GAS air''" "get_token ''2022 GAS air'' = Some (''2022'', '' GAS air'')"
    "list_all skipped ['''', ''! end'']"
    by (simp_all add: eval_simps)
  have tp: "snd (read_header ''2022 GAS air'' (currentSubsystemId ?st, currentType ?st)) = ''GAS''"
    by (simp add: eval_simps)
  from trailing_header_new_id [where fs = trailing_fs and filename = "''tail.mat''"
      and strtod = Some and rd = new_MatFileReader and pre = ?pre, OF opened refl phase fresh h]
  have "reader_materials (readMatFile Some trailing_fs ''tail.mat'' new_MatFileReader) ''2022''
       = Some \<lparr>subsystemId = ''2022'', mtype = ''GAS'', properties = []\<rparr>"
    by (simp only: tp)
  with opened phase fresh h show ?thesis
    by (simp add: new_MatFileReader_def)
qed

subsection \<open>C10: every record under its own id\<close>

text \<open>
  C10.  In the map that \<^verbatim>\<open>readMatFile\<close> leaves in a new reader, every record \<open>r\<close>
  stored under a key \<open>k\<close> has \<open>subsystemId r = k\<close>.  The invariant is kept by a call on
  any reader whose map has it, and by every single pass of the loop, whatever the line.
\<close>

theorem materials_keyed_by_subsystemId:
  "keyed_by_id (reader_materials (readMatFile strtod fs filename new_MatFileReader))
   \<and> (keyed_by_id (reader_materials rd) \<longrightarrow>
        keyed_by_id (reader_materials (readMatFile strtod fs filename rd)))
   \<and> (keyed_by_id (materials st) \<longrightarrow> keyed_by_id (materials (loop_body strtod st line)))"
  by (simp add: keyed_by_id_readMatFile keyed_by_id_loop_body new_MatFileReader_def
        keyed_by_id_empty)

theorem materials_keyed_by_subsystemId_witness:
  "keyed_by_id (reader_materials (new_MatFileReader :: string MatFileReader))
   \<and> keyed_by_id (reader_materials (readMatFile Some example_fs ''steel.mat'' new_MatFileReader))
   \<and> keyed_by_id (materials (loop_init Map.empty :: string parse_state))
   \<and> keyed_by_id (materials (loop_body Some (loop_init Map.empty) ''1011 ISOELASTIC steel''))
   \<and> reader_materials (readMatFile Some example_fs ''steel.mat'' new_MatFileReader) ''1011''
       = Some \<lparr>subsystemId = ''1011'', mtype = ''ISOELASTIC'',
           properties = [''7.85e-6'', ''2.07e8'', ''8.0e7'', ''0.3'']\<rparr>"
proof -
  have start: "keyed_by_id (reader_materials (new_MatFileReader :: string MatFileReader))"
    "keyed_by_id (materials (loop_init Map.empty :: string parse_state))"
    by (simp_all add: new_MatFileReader_def loop_init_def keyed_by_id_empty)
  with materials_keyed_by_subsystemId [of Some example_fs "''steel.mat''" new_MatFileReader
      "loop_init Map.empty" "''1011 ISOELASTIC steel''"]
  show ?thesis
    using example_fs_steel by simp
qed

end
